theory Spec2Isabelle
  imports Complex_Main "HOL-Library.Char_ord" "HOL-Library.List_Lexorder"
begin

section \<open>Python values used by the library service\<close>

text \<open>
  Strings are lists of characters; a \<^typ>\<open>char\<close> stands for the code point of the same
  number, so the model covers Python strings over U+0000..U+00FF. \<open>len\<close> is
  \<^const>\<open>length\<close>.

  \<open>str.isspace\<close> holds in that range for the code points 9..13, 28..32, 133 and 160, and
  \<open>str.strip()\<close> removes exactly those from both ends.
  \<open>str.isdigit\<close> holds for 48..57 and for the superscripts 178, 179 and 185, and is
  False on the empty string.
\<close>

definition py_space :: "char \<Rightarrow> bool" where
  "py_space c = (of_char c \<in> {9, 10, 11, 12, 13, 28, 29, 30, 31, 32, 133, 160 :: nat})"

definition strip :: "string \<Rightarrow> string" where
  "strip s = rev (dropWhile py_space (rev (dropWhile py_space s)))"

definition py_digit :: "char \<Rightarrow> bool" where
  "py_digit c = (let n = (of_char c :: nat) in (48 \<le> n \<and> n \<le> 57) \<or> n = 178 \<or> n = 179 \<or> n = 185)"

definition isdigit :: "string \<Rightarrow> bool" where
  "isdigit s = (s \<noteq> [] \<and> list_all py_digit s)"

text \<open>
  The argument \<open>total_copies\<close> is annotated \<open>int\<close>, but the function tests
  \<open>isinstance(total_copies, int)\<close> itself, so the model keeps the dynamic type.
  \<open>bool\<close> is a subclass of \<open>int\<close> in Python (\<open>True == 1\<close>).
\<close>

datatype py_value = PyInt int | PyBool bool | PyFloat rat | PyStr string | PyNone

fun isinstance_int :: "py_value \<Rightarrow> bool" where
  "isinstance_int (PyInt n) = True"
| "isinstance_int (PyBool b) = True"
| "isinstance_int v = False"

fun int_value :: "py_value \<Rightarrow> int" where
  "int_value (PyInt n) = n"
| "int_value (PyBool b) = (if b then 1 else 0)"
| "int_value v = 0"

text \<open>
  A naive \<open>datetime\<close>: the calendar day (\<open>date().toordinal()\<close>) and the microseconds
  since midnight. \<open>dt.date()\<close> is \<open>day dt\<close>, the \<open>.days\<close> of a difference of two
  dates is the difference of the day numbers, and \<open>dt + timedelta(days=n)\<close> adds \<open>n\<close>
  to the day.
\<close>

record datetime =
  day :: int
  tod :: nat

definition dt_less :: "datetime \<Rightarrow> datetime \<Rightarrow> bool" where
  "dt_less a b = (day a < day b \<or> (day a = day b \<and> tod a < tod b))"

definition add_days :: "datetime \<Rightarrow> int \<Rightarrow> datetime" where
  "add_days dt n = dt\<lparr>day := day dt + n\<rparr>"

text \<open>
  Fees are Python floats. Every float the service computes is an integer multiple of
  \<open>0.5\<close> of small magnitude (a day count times \<open>0.50\<close>, plus whole numbers, compared with
  \<open>15.00\<close>), and IEEE-754 double arithmetic is exact on those, so they are modelled as
  rationals. \<open>round(x, 2)\<close> rounds to the nearest multiple of \<open>0.01\<close>, an exact tie
  going to the even neighbour.
\<close>

definition round2 :: "rat \<Rightarrow> rat" where
  "round2 x =
     (let y = x * 100; f = \<lfloor>y\<rfloor>; r = y - of_int f
      in of_int (if r < 1 / 2 then f
                 else if 1 / 2 < r then f + 1
                 else if even f then f else f + 1) / 100)"

section \<open>Storage gateway\<close>

record book =
  bk_id :: int
  bk_title :: string
  bk_author :: string
  bk_isbn :: string
  total_copies :: int
  available_copies :: int

record borrow_record =
  patron_id :: string
  book_id :: int
  borrow_date :: datetime
  due_date :: datetime
  return_date :: "datetime option"

record db =
  books :: "book list"
  borrow_records :: "borrow_record list"

text \<open>The dictionaries returned by \<open>get_patron_borrowed_books\<close>.\<close>

record loan =
  loan_book_id :: int
  loan_title :: string
  loan_author :: string
  loan_borrow_date :: datetime
  loan_due_date :: datetime
  is_overdue :: bool

text \<open>
  The module \<open>database\<close> is imported by \<open>library_service.py\<close> but is not among the
  sources. Its functions are modelled below from the storage contract of the
  specification (section 6) and from the way the service calls them. A write primitive
  returns a success flag; whether a given write succeeds is decided outside the
  service, so each write takes that outcome as its first argument \<open>ok\<close>, and a write
  that fails leaves the store as it was.
\<close>

text \<open>
  Modelled from the spec: \<open>get_book(id) \<rightarrow> Book | absent\<close>; \<open>database.get_book_by_id\<close> is missing.
\<close>

definition get_book_by_id :: "db \<Rightarrow> int \<Rightarrow> book option" where
  "get_book_by_id d i = find (\<lambda>b. bk_id b = i) (books d)"

text \<open>
  Modelled from the spec: \<open>get_book(isbn) \<rightarrow> Book | absent\<close>; \<open>database.get_book_by_isbn\<close> is missing.
\<close>

definition get_book_by_isbn :: "db \<Rightarrow> string \<Rightarrow> book option" where
  "get_book_by_isbn d i = find (\<lambda>b. bk_isbn b = i) (books d)"

text \<open>
  Modelled from the spec: a loan is a borrow record whose return date is unset (glossary);
  here the open loans of patron \<open>p\<close>.
\<close>

definition is_open_loan :: "string \<Rightarrow> borrow_record \<Rightarrow> bool" where
  "is_open_loan p r = (patron_id r = p \<and> return_date r = None)"

text \<open>
  Modelled from the spec: \<open>count_open_loans(patron) \<rightarrow> integer\<close>, the patron's records with
  no return date; \<open>database.get_patron_borrow_count\<close> is missing.
\<close>

definition get_patron_borrow_count :: "db \<Rightarrow> string \<Rightarrow> int" where
  "get_patron_borrow_count d p = int (length (filter (is_open_loan p) (borrow_records d)))"

text \<open>
  Modelled from the spec: a book's id is unique and assigned by storage; here one more
  than the largest id in use (1 in an empty catalog).
\<close>

definition next_book_id :: "db \<Rightarrow> int" where
  "next_book_id d = fold max (map bk_id (books d)) 0 + 1"

text \<open>
  Modelled from the spec: \<open>insert_book(title, author, isbn, total, available) \<rightarrow> success flag\<close>;
  \<open>database.insert_book\<close> is missing.
\<close>

definition insert_book :: "bool \<Rightarrow> db \<Rightarrow> string \<Rightarrow> string \<Rightarrow> string \<Rightarrow> int \<Rightarrow> int \<Rightarrow> db \<times> bool" where
  "insert_book ok d t a i tc ac =
     (if ok
      then (d\<lparr>books := books d @
                [\<lparr>bk_id = next_book_id d, bk_title = t, bk_author = a, bk_isbn = i,
                  total_copies = tc, available_copies = ac\<rparr>]\<rparr>, True)
      else (d, False))"

text \<open>
  Modelled from the spec: \<open>insert_borrow_record(patron, book, borrow_date, due_date) \<rightarrow> success flag\<close>,
  the new record open (no return date); \<open>database.insert_borrow_record\<close> is missing.
\<close>

definition insert_borrow_record :: "bool \<Rightarrow> db \<Rightarrow> string \<Rightarrow> int \<Rightarrow> datetime \<Rightarrow> datetime \<Rightarrow> db \<times> bool" where
  "insert_borrow_record ok d p b bd dd =
     (if ok
      then (d\<lparr>borrow_records := borrow_records d @
                [\<lparr>patron_id = p, book_id = b, borrow_date = bd, due_date = dd,
                  return_date = None\<rparr>]\<rparr>, True)
      else (d, False))"

text \<open>
  Modelled from the spec: \<open>update_available_copies(book_id, delta) \<rightarrow> success flag\<close>, adding
  \<open>delta\<close> to the counter of the book with that id; \<open>database.update_book_availability\<close> is missing.
\<close>

definition update_book_availability :: "bool \<Rightarrow> db \<Rightarrow> int \<Rightarrow> int \<Rightarrow> db \<times> bool" where
  "update_book_availability ok d i delta =
     (if ok
      then (d\<lparr>books := map (\<lambda>b. if bk_id b = i
                                  then b\<lparr>available_copies := available_copies b + delta\<rparr>
                                  else b) (books d)\<rparr>, True)
      else (d, False))"

text \<open>
  Modelled from the spec: section 4.2 sets \<open>return_date = now\<close> on one open record of
  the patron and the book; here the first such record of the table.
\<close>

fun close_first :: "string \<Rightarrow> int \<Rightarrow> datetime \<Rightarrow> borrow_record list \<Rightarrow> borrow_record list" where
  "close_first p b rd [] = []"
| "close_first p b rd (r # rs) =
     (if is_open_loan p r \<and> book_id r = b
      then r\<lparr>return_date := Some rd\<rparr> # rs
      else r # close_first p b rd rs)"

text \<open>
  Modelled from the spec: \<open>set_return_date(patron, book, return_date) \<rightarrow> success flag\<close>, which
  sets the return date on the open record of that patron and book;
  \<open>database.update_borrow_record_return_date\<close> is missing.
\<close>

definition update_borrow_record_return_date :: "bool \<Rightarrow> db \<Rightarrow> string \<Rightarrow> int \<Rightarrow> datetime \<Rightarrow> db \<times> bool" where
  "update_borrow_record_return_date ok d p b rd =
     (if ok
      then (d\<lparr>borrow_records := close_first p b rd (borrow_records d)\<rparr>, True)
      else (d, False))"

text \<open>
  Modelled from the spec: an open record joined with its book, as the service reads it
  (\<open>book_id\<close>, \<open>title\<close>, \<open>author\<close>, \<open>due_date\<close>, \<open>is_overdue\<close>); a record
  whose book is not in the catalog gives no row.
\<close>

definition loan_of :: "db \<Rightarrow> datetime \<Rightarrow> borrow_record \<Rightarrow> loan list" where
  "loan_of d now r =
     (case get_book_by_id d (book_id r) of
        None \<Rightarrow> []
      | Some b \<Rightarrow> [\<lparr>loan_book_id = book_id r, loan_title = bk_title b, loan_author = bk_author b,
                     loan_borrow_date = borrow_date r, loan_due_date = due_date r,
                     is_overdue = dt_less (due_date r) now\<rparr>])"

text \<open>
  Modelled from the spec: \<open>list_open_loans(patron)\<close>, the patron's open records, each with the
  title and author of its book and the overdue flag \<open>due_date < now\<close>;
  \<open>database.get_patron_borrowed_books\<close> is missing.
\<close>

definition get_patron_borrowed_books :: "db \<Rightarrow> datetime \<Rightarrow> string \<Rightarrow> loan list" where
  "get_patron_borrowed_books d now p =
     concat (map (loan_of d now) (filter (is_open_loan p) (borrow_records d)))"

section \<open>The library service\<close>

text \<open>
  Each operation reads the clock once per call in the model (\<open>now\<close>), and takes the
  outcomes of the storage writes it performs, in the order it performs them.
\<close>

definition valid_patron_id :: "string \<Rightarrow> bool" where
  \<comment> \<open>the negation of \<open>not patron_id or not patron_id.isdigit() or len(patron_id) != 6\<close>\<close>
  "valid_patron_id p = (\<not> (p = [] \<or> \<not> isdigit p \<or> length p \<noteq> 6))"

text \<open>
  The operations return \<open>(success, message)\<close>. A message is kept as the template it was
  built from, with the values interpolated into it:
  \<^item> \<open>Title_required\<close>: "Title is required."
  \<^item> \<open>Title_too_long\<close>: "Title must be less than 200 characters."
  \<^item> \<open>Author_required\<close>: "Author is required."
  \<^item> \<open>Author_too_long\<close>: "Author must be less than 100 characters."
  \<^item> \<open>Isbn_format\<close>: "ISBN must be exactly 13 digits."
  \<^item> \<open>Copies_invalid\<close>: "Total copies must be a positive integer."
  \<^item> \<open>Duplicate_isbn\<close>: "A book with this ISBN already exists."
  \<^item> \<open>Book_added t\<close>: "Book "t" has been successfully added to the catalog."
  \<^item> \<open>Db_error_add\<close>: "Database error occurred while adding the book."
  \<^item> \<open>Invalid_patron\<close>: "Invalid patron ID. Must be exactly 6 digits."
  \<^item> \<open>Book_not_found\<close>: "Book not found."
  \<^item> \<open>Not_available\<close>: "This book is currently not available."
  \<^item> \<open>Limit_reached\<close>: "You have reached the maximum borrowing limit of 5 books."
  \<^item> \<open>Db_error_borrow_record\<close>: "Database error occurred while creating borrow record."
  \<^item> \<open>Db_error_availability\<close>: "Database error occurred while updating book availability."
  \<^item> \<open>Borrowed t d\<close>: "Successfully borrowed "t". Due date: d." (\<open>d\<close> the due day)
  \<^item> \<open>Not_borrowed\<close>: "This book was not borrowed by this patron."
  \<^item> \<open>Db_error_return_record\<close>: "Database error occurred while updating return record."
  \<^item> \<open>Returned_late n fee\<close>: "Book returned successfully but n days late. Late fee: $fee"
  \<^item> \<open>Returned t\<close>: "Book "t" has been successfully returned."
\<close>

datatype message =
    Title_required | Title_too_long | Author_required | Author_too_long
  | Isbn_format | Copies_invalid | Duplicate_isbn | Book_added string | Db_error_add
  | Invalid_patron | Book_not_found | Not_available | Limit_reached
  | Db_error_borrow_record | Db_error_availability | Borrowed string int
  | Not_borrowed | Db_error_return_record | Returned_late int rat | Returned string

subsection \<open>\<open>add_book_to_catalog\<close>\<close>

definition add_book_to_catalog ::
  "db \<Rightarrow> bool \<Rightarrow> string \<Rightarrow> string \<Rightarrow> string \<Rightarrow> py_value \<Rightarrow> db \<times> bool \<times> message" where
  "add_book_to_catalog d insert_ok title author isbn copies =
     (if title = [] \<or> strip title = [] then (d, False, Title_required)
      else if length (strip title) > 200 then (d, False, Title_too_long)
      else if author = [] \<or> strip author = [] then (d, False, Author_required)
      else if length (strip author) > 100 then (d, False, Author_too_long)
      else if length isbn \<noteq> 13 then (d, False, Isbn_format)
      else if \<not> isinstance_int copies \<or> int_value copies \<le> 0 then (d, False, Copies_invalid)
      else case get_book_by_isbn d isbn of
        Some existing \<Rightarrow> (d, False, Duplicate_isbn)
      | None \<Rightarrow>
         (let (d', success) =
                insert_book insert_ok d (strip title) (strip author) isbn
                  (int_value copies) (int_value copies)
          in if success then (d', True, Book_added (strip title))
             else (d', False, Db_error_add)))"

subsection \<open>\<open>borrow_book_by_patron\<close>\<close>

definition borrow_book_by_patron ::
  "db \<Rightarrow> datetime \<Rightarrow> bool \<Rightarrow> bool \<Rightarrow> string \<Rightarrow> int \<Rightarrow> db \<times> bool \<times> message" where
  "borrow_book_by_patron d now record_ok avail_ok p b =
     (if \<not> valid_patron_id p then (d, False, Invalid_patron)
      else case get_book_by_id d b of
        None \<Rightarrow> (d, False, Book_not_found)
      | Some bk \<Rightarrow>
         if available_copies bk \<le> 0 then (d, False, Not_available)
         else
           (let current_borrowed = get_patron_borrow_count d p
            in if current_borrowed > 5 then (d, False, Limit_reached)
               else
                 (let borrow_date = now;
                      due = add_days borrow_date 14;
                      (d1, borrow_success) = insert_borrow_record record_ok d p b borrow_date due
                  in if \<not> borrow_success then (d1, False, Db_error_borrow_record)
                     else
                       (let (d2, availability_success) = update_book_availability avail_ok d1 b (- 1)
                        in if \<not> availability_success then (d2, False, Db_error_availability)
                           else (d2, True, Borrowed (bk_title bk) (day due))))))"

subsection \<open>\<open>return_book_by_patron\<close>\<close>

definition return_book_by_patron ::
  "db \<Rightarrow> datetime \<Rightarrow> bool \<Rightarrow> bool \<Rightarrow> string \<Rightarrow> int \<Rightarrow> db \<times> bool \<times> message" where
  "return_book_by_patron d now record_ok avail_ok p b =
     (if \<not> valid_patron_id p then (d, False, Invalid_patron)
      else case get_book_by_id d b of
        None \<Rightarrow> (d, False, Book_not_found)
      | Some bk \<Rightarrow>
         (case find (\<lambda>l. loan_book_id l = b) (get_patron_borrowed_books d now p) of
            None \<Rightarrow> (d, False, Not_borrowed)
          | Some borrowed \<Rightarrow>
             (let due = loan_due_date borrowed;
                  return_dt = now;
                  (d1, update_success) = update_borrow_record_return_date record_ok d p b return_dt
              in if \<not> update_success then (d1, False, Db_error_return_record)
                 else
                   (let (d2, availability_success) = update_book_availability avail_ok d1 b 1
                    in if \<not> availability_success then (d2, False, Db_error_availability)
                       else if day return_dt > day due
                       then (let days_late = day return_dt - day due;
                                 fee = of_int days_late * (1 / 2)
                             in (d2, True, Returned_late days_late fee))
                       else (d2, True, Returned (bk_title bk))))))"

subsection \<open>\<open>calculate_late_fee_for_book\<close>\<close>

record fee_result =
  fee_amount :: rat
  days_overdue :: int
  status :: string

text \<open>
  The fee of a loan that is \<open>days_overdue\<close> days overdue, before rounding (the block
  "Calculate fee based on days overdue" with the cap that follows it).
\<close>

definition tiered_fee :: "int \<Rightarrow> rat" where
  "tiered_fee days =
     (let fee = (if days \<le> 7 then of_int days * (1 / 2)
                 else 7 * (1 / 2) + of_int (days - 7) * 1)
      in min fee 15)"

definition calculate_late_fee_for_book :: "db \<Rightarrow> datetime \<Rightarrow> string \<Rightarrow> int \<Rightarrow> fee_result" where
  "calculate_late_fee_for_book d now p b =
     (if \<not> valid_patron_id p
      then \<lparr>fee_amount = 0, days_overdue = 0, status = ''Invalid patron ID''\<rparr>
      else case get_book_by_id d b of
        None \<Rightarrow> \<lparr>fee_amount = 0, days_overdue = 0, status = ''Book not found''\<rparr>
      | Some bk \<Rightarrow>
         (case find (\<lambda>l. loan_book_id l = b) (get_patron_borrowed_books d now p) of
            None \<Rightarrow> \<lparr>fee_amount = 0, days_overdue = 0, status = ''Book not borrowed by this patron''\<rparr>
          | Some book_record \<Rightarrow>
             (let current_date = day now; due = day (loan_due_date book_record)
              in if current_date \<le> due
                 then \<lparr>fee_amount = 0, days_overdue = 0, status = ''Book not overdue''\<rparr>
                 else
                   (let days = current_date - due;
                        fee = tiered_fee days
                    in \<lparr>fee_amount = round2 fee, days_overdue = days,
                        status = ''Late fee calculated''\<rparr>))))"

subsection \<open>\<open>search_books_in_catalog\<close>\<close>

text \<open>
  The search runs two SQL queries on the table of books. \<open>isbn = ?\<close> compares the
  stored text with the parameter for equality. \<open>column LIKE ?\<close> is SQLite's pattern
  match: in the pattern \<open>%\<close> matches any run of characters (the empty one too),
  \<open>_\<close> matches any one character, and every other character matches itself, the
  letters \<open>a..z\<close> and \<open>A..Z\<close> without regard to case. SQLite reads both the pattern
  and the text as C strings: each ends at its first NUL character (U+0000), and what
  follows it is not looked at. The service puts the search term between two \<open>%\<close> and
  does not escape it. \<open>ORDER BY title\<close> sorts by the code points of the title.
\<close>

definition sql_fold :: "char \<Rightarrow> char" where
  "sql_fold c =
     (case map_of (zip ''abcdefghijklmnopqrstuvwxyz'' ''ABCDEFGHIJKLMNOPQRSTUVWXYZ'') c of
        Some u \<Rightarrow> u
      | None \<Rightarrow> c)"

definition c_string :: "string \<Rightarrow> string" where
  "c_string s = takeWhile (\<lambda>c. c \<noteq> CHR 0x00) s"

fun like_match :: "string \<Rightarrow> string \<Rightarrow> bool" where
  "like_match [] [] = True"
| "like_match [] (c # cs) = False"
| "like_match (q # qs) [] = (q = CHR ''%'' \<and> like_match qs [])"
| "like_match (q # qs) (c # cs) =
     (if q = CHR ''%'' then like_match qs (c # cs) \<or> like_match (q # qs) cs
      else (q = CHR ''_'' \<or> sql_fold q = sql_fold c) \<and> like_match qs cs)"

definition sql_like :: "string \<Rightarrow> string \<Rightarrow> bool" where
  "sql_like pat s = like_match (c_string pat) (c_string s)"

text \<open>
  \<open>query_ok\<close> is False when the query raises inside the \<open>try\<close> block; the handler then
  prints the error and returns the empty list.
\<close>

definition search_books_in_catalog :: "db \<Rightarrow> bool \<Rightarrow> string \<Rightarrow> string \<Rightarrow> book list" where
  "search_books_in_catalog d query_ok search_term search_type =
     (if search_term = [] \<or> strip search_term = [] then []
      else if search_type \<notin> set [''title'', ''author'', ''isbn''] then []
      else
        (let term = strip search_term
         in if \<not> query_ok then []
            else if search_type = ''isbn''
            then sort_key bk_title (filter (\<lambda>b. bk_isbn b = term) (books d))
            else
              (let search_pattern = CHR ''%'' # term @ [CHR ''%''];
                   column = (if search_type = ''title'' then bk_title else bk_author)
               in sort_key bk_title (filter (\<lambda>b. sql_like search_pattern (column b)) (books d)))))"

subsection \<open>\<open>get_patron_status_report\<close>\<close>









section \<open>Sequences of operations\<close>

text \<open>
  A borrow or a return, with the time of the call, the outcomes of its two storage
  writes, the patron and the book.
\<close>

datatype circulation_op =
    Borrow_op datetime bool bool string int
  | Return_op datetime bool bool string int

fun apply_op :: "db \<Rightarrow> circulation_op \<Rightarrow> db" where
  "apply_op d (Borrow_op now record_ok avail_ok p b) =
     fst (borrow_book_by_patron d now record_ok avail_ok p b)"
| "apply_op d (Return_op now record_ok avail_ok p b) =
     fst (return_book_by_patron d now record_ok avail_ok p b)"

fun run_ops :: "db \<Rightarrow> circulation_op list \<Rightarrow> db" where
  "run_ops d [] = d"
| "run_ops d (x # xs) = run_ops (apply_op d x) xs"

text \<open>
  A borrow whose record was written and whose availability update then failed: it ends
  with the message of \<open>Db_error_availability\<close>.
\<close>

fun half_borrowed :: "db \<Rightarrow> circulation_op \<Rightarrow> bool" where
  "half_borrowed d (Borrow_op now record_ok avail_ok p b) =
     (snd (snd (borrow_book_by_patron d now record_ok avail_ok p b)) = Db_error_availability)"
| "half_borrowed d (Return_op now record_ok avail_ok p b) = False"

fun no_half_borrow :: "db \<Rightarrow> circulation_op list \<Rightarrow> bool" where
  "no_half_borrow d [] = True"
| "no_half_borrow d (x # xs) = (\<not> half_borrowed d x \<and> no_half_borrow (apply_op d x) xs)"

definition open_loans_of_book :: "db \<Rightarrow> int \<Rightarrow> nat" where
  "open_loans_of_book d b =
     length (filter (\<lambda>r. book_id r = b \<and> return_date r = None) (borrow_records d))"

text \<open>Every borrow record is of a book of the catalog.\<close>

definition records_reference_books :: "db \<Rightarrow> bool" where
  "records_reference_books d = list_all (\<lambda>r. get_book_by_id d (book_id r) \<noteq> None) (borrow_records d)"

text \<open>
  The two invariants of a book \<open>b\<close> with \<open>t\<close> copies in all: its counter is not
  negative; and the counter and the open loans of the book together do not exceed \<open>t\<close>.
\<close>

definition copies_nonneg :: "db \<Rightarrow> int \<Rightarrow> int \<Rightarrow> bool" where
  "copies_nonneg d b t = (\<exists>bk. get_book_by_id d b = Some bk \<and> total_copies bk = t
      \<and> 0 \<le> available_copies bk)"

definition copies_accounted :: "db \<Rightarrow> int \<Rightarrow> int \<Rightarrow> bool" where
  "copies_accounted d b t = (\<exists>bk. get_book_by_id d b = Some bk \<and> total_copies bk = t
      \<and> 0 \<le> available_copies bk
      \<and> available_copies bk + int (open_loans_of_book d b) \<le> t)"

section \<open>The rules of the specification\<close>

text \<open>
  The validation rules of \<open>add\<close> as section 4.1 of the specification words them, and
  the first of them that fails in the order of section 8: title presence, title
  length, author presence, author length, isbn format, copies validity, duplicate
  isbn. These follow the specification, not the code; the properties compare the two.
\<close>

definition spec_isbn_format :: "string \<Rightarrow> bool" where
  "spec_isbn_format i = (length i = 13 \<and> list_all py_digit i)"

definition spec_copies_valid :: "py_value \<Rightarrow> bool" where
  "spec_copies_valid c = (isinstance_int c \<and> 0 < int_value c)"

definition spec_first_failing_rule ::
  "db \<Rightarrow> string \<Rightarrow> string \<Rightarrow> string \<Rightarrow> py_value \<Rightarrow> message option" where
  "spec_first_failing_rule d title author isbn copies =
     (if strip title = [] then Some Title_required
      else if 200 < length (strip title) then Some Title_too_long
      else if strip author = [] then Some Author_required
      else if 100 < length (strip author) then Some Author_too_long
      else if \<not> spec_isbn_format isbn then Some Isbn_format
      else if \<not> spec_copies_valid copies then Some Copies_invalid
      else if isbn \<in> set (map bk_isbn (books d)) then Some Duplicate_isbn
      else None)"



text \<open>
  Case-insensitive substring, for the letters \<open>a..z\<close>: \<open>ci_substring t s\<close> holds when
  \<open>t\<close> occurs in \<open>s\<close> as a run of consecutive characters, up to the case of letters.
\<close>

fun ci_prefix :: "string \<Rightarrow> string \<Rightarrow> bool" where
  "ci_prefix [] s = True"
| "ci_prefix (x # xs) [] = False"
| "ci_prefix (x # xs) (c # cs) = (sql_fold x = sql_fold c \<and> ci_prefix xs cs)"

fun ci_substring :: "string \<Rightarrow> string \<Rightarrow> bool" where
  "ci_substring t [] = (t = [])"
| "ci_substring t (c # cs) = (ci_prefix t (c # cs) \<or> ci_substring t cs)"

text \<open>A search term with no wildcard of \<open>LIKE\<close> and no NUL character in it.\<close>

definition plain_term :: "string \<Rightarrow> bool" where
  "plain_term t = (CHR ''%'' \<notin> set t \<and> CHR ''_'' \<notin> set t \<and> CHR 0x00 \<notin> set t)"

text \<open>
  The code point of \<open>c.lower()\<close> in Python, for the code points up to U+00FF: the
  letters \<open>A..Z\<close> and the accented capitals U+00C0..U+00DE (U+00D7 is the
  multiplication sign) have their lower-case letter 32 places on.
\<close>

definition py_lower_code :: "char \<Rightarrow> nat" where
  "py_lower_code c =
     (let n = (of_char c :: nat)
      in if (65 \<le> n \<and> n \<le> 90) \<or> (192 \<le> n \<and> n \<le> 222 \<and> n \<noteq> 215) then n + 32 else n)"

section \<open>Example states\<close>

definition empty_db :: db where
  "empty_db = \<lparr>books = [], borrow_records = []\<rparr>"

definition dune :: book where
  "dune = \<lparr>bk_id = 1, bk_title = ''Dune'', bk_author = ''Herbert'',
           bk_isbn = ''9780441013593'', total_copies = 9, available_copies = 4\<rparr>"

definition open_loan :: "string \<Rightarrow> int \<Rightarrow> int \<Rightarrow> nat \<Rightarrow> borrow_record" where
  "open_loan p b due_day due_tod =
     \<lparr>patron_id = p, book_id = b, borrow_date = \<lparr>day = due_day - 14, tod = due_tod\<rparr>,
      due_date = \<lparr>day = due_day, tod = due_tod\<rparr>, return_date = None\<rparr>"

definition one_loan_db :: db where
  "one_loan_db = \<lparr>books = [dune], borrow_records = [open_loan ''123456'' 1 114 86399999999]\<rparr>"

definition five_loans_db :: db where
  "five_loans_db =
     \<lparr>books = [dune],
      borrow_records = [open_loan ''123456'' 1 114 0, open_loan ''123456'' 1 115 0,
                        open_loan ''123456'' 1 116 0, open_loan ''123456'' 1 117 0,
                        open_loan ''123456'' 1 118 0]\<rparr>"



text \<open>The book \<open>Zzz\<close> of the search round trip, added to an empty catalog.\<close>

definition zzz_db :: db where
  "zzz_db = fst (add_book_to_catalog empty_db True ''Zzz'' ''A'' ''1234567890123'' (PyInt 1))"

definition zzz :: book where
  "zzz = \<lparr>bk_id = 1, bk_title = ''Zzz'', bk_author = ''A'', bk_isbn = ''1234567890123'',
          total_copies = 1, available_copies = 1\<rparr>"

section \<open>Properties\<close>

text \<open>The definitions that evaluate a call on a given state.\<close>

lemmas eval_defs = valid_patron_id_def isdigit_def py_digit_def py_space_def strip_def
  get_book_by_id_def get_book_by_isbn_def get_patron_borrow_count_def is_open_loan_def
  next_book_id_def insert_book_def insert_borrow_record_def update_book_availability_def
  update_borrow_record_return_date_def loan_of_def get_patron_borrowed_books_def
  add_book_to_catalog_def borrow_book_by_patron_def return_book_by_patron_def
  calculate_late_fee_for_book_def dt_less_def add_days_def Let_def
  empty_db_def dune_def open_loan_def one_loan_db_def five_loans_db_def

lemma round2_half: "round2 (of_int n / 2) = of_int n / 2"
proof -
  have "(of_int n / 2 :: rat) * 100 = of_int (50 * n)" by simp
  then show ?thesis by (simp add: round2_def Let_def del: of_int_mult)
qed

subsection \<open>The tiered fee\<close>

lemma tiered_fee_half:
  "0 < n \<Longrightarrow> tiered_fee n = of_int (min (if n \<le> 7 then n else 2 * n - 7) 30) / 2"
  by (auto simp: tiered_fee_def Let_def min_def field_simps)

lemma tiered_fee_spec:
  "0 \<le> n \<Longrightarrow> min 15 (1 / 2 * of_int (min n 7) + 1 * of_int (max 0 (n - 7)))
      = (of_int (min (if n \<le> 7 then n else 2 * n - 7) 30) / 2 :: rat)"
  by (auto simp: min_def max_def field_simps)

lemma calculate_found:
  assumes "valid_patron_id p"
    and "get_book_by_id d b = Some bk"
    and "find (\<lambda>l. loan_book_id l = b) (get_patron_borrowed_books d now p) = Some l"
  shows "calculate_late_fee_for_book d now p b =
     (if day now \<le> day (loan_due_date l)
      then \<lparr>fee_amount = 0, days_overdue = 0, status = ''Book not overdue''\<rparr>
      else \<lparr>fee_amount = round2 (tiered_fee (day now - day (loan_due_date l))),
            days_overdue = day now - day (loan_due_date l), status = ''Late fee calculated''\<rparr>)"
  using assms by (simp add: calculate_late_fee_for_book_def Let_def)

text \<open>
  C1. For a patron's open loan of a book, with \<open>n\<close> the number of calendar days from the
  due date to today, or 0 when the loan is not yet due, \<open>calculate_late_fee_for_book\<close>
  reports \<open>days_overdue = n\<close> and the fee
  \<open>round(min(15.00, 0.50 * min(n, 7) + 1.00 * max(0, n - 7)), 2)\<close>: 2.50 at 5 days, 3.50 at
  7 days, 6.50 at 10 days, 15.00 at 30 days, and 0.00 with zero days for a loan that is not
  yet due.
\<close>

theorem calculate_late_fee_formula:
  assumes "valid_patron_id p"
    and "get_book_by_id d b = Some bk"
    and "find (\<lambda>l. loan_book_id l = b) (get_patron_borrowed_books d now p) = Some l"
  shows "let n = max 0 (day now - day (loan_due_date l));
             r = calculate_late_fee_for_book d now p b
         in fee_amount r = round2 (min 15 (1 / 2 * of_int (min n 7) + 1 * of_int (max 0 (n - 7))))
          \<and> days_overdue r = n
          \<and> (n = 5 \<longrightarrow> fee_amount r = 5 / 2)
          \<and> (n = 7 \<longrightarrow> fee_amount r = 7 / 2)
          \<and> (n = 10 \<longrightarrow> fee_amount r = 13 / 2)
          \<and> (n = 30 \<longrightarrow> fee_amount r = 15)
          \<and> (day now \<le> day (loan_due_date l) \<longrightarrow> fee_amount r = 0 \<and> days_overdue r = 0)"
proof -
  define n where "n = max 0 (day now - day (loan_due_date l))"
  define r where "r = calculate_late_fee_for_book d now p b"
  define h :: rat where "h = of_int (min (if n \<le> 7 then n else 2 * n - 7) 30) / 2"
  have n0: "0 \<le> n" by (simp add: n_def)
  have r: "r = (if n \<le> 0 then \<lparr>fee_amount = 0, days_overdue = 0, status = ''Book not overdue''\<rparr>
      else \<lparr>fee_amount = round2 (tiered_fee n), days_overdue = n, status = ''Late fee calculated''\<rparr>)"
    unfolding r_def calculate_found[OF assms] n_def by (simp add: max_def)
  have days: "days_overdue r = n" using r n0 by auto
  have fee_h: "fee_amount r = round2 h"
  proof (cases "n \<le> 0")
    case True
    with n0 have "n = 0" by simp
    then show ?thesis using r by (simp add: h_def round2_def)
  next
    case False
    then show ?thesis using r tiered_fee_half[of n] by (simp add: h_def)
  qed
  have fee_spec: "fee_amount r = round2 (min 15 (1 / 2 * of_int (min n 7) + 1 * of_int (max 0 (n - 7))))"
    unfolding tiered_fee_spec[OF n0] fee_h h_def ..
  have fee_val: "fee_amount r = h"
    unfolding fee_h h_def by (rule round2_half)
  have ex: "(n = 5 \<longrightarrow> fee_amount r = 5 / 2) \<and> (n = 7 \<longrightarrow> fee_amount r = 7 / 2)
      \<and> (n = 10 \<longrightarrow> fee_amount r = 13 / 2) \<and> (n = 30 \<longrightarrow> fee_amount r = 15)"
    unfolding fee_val by (simp add: h_def)
  have nd: "day now \<le> day (loan_due_date l) \<longrightarrow> fee_amount r = 0 \<and> days_overdue r = 0"
    using r by (simp add: n_def)
  show ?thesis
    unfolding Let_def n_def[symmetric] r_def[symmetric]
    using fee_spec days ex nd by blast
qed

text \<open>
  A loan due on day 114, looked up on day 124: ten days overdue, 6.50.
\<close>

theorem calculate_late_fee_formula_witness:
  "let d = \<lparr>books = [\<lparr>bk_id = 1, bk_title = ''Dune'', bk_author = ''Herbert'',
                       bk_isbn = ''9780441013593'', total_copies = 2, available_copies = 1\<rparr>],
            borrow_records = [\<lparr>patron_id = ''123456'', book_id = 1,
                               borrow_date = \<lparr>day = 100, tod = 0\<rparr>,
                               due_date = \<lparr>day = 114, tod = 0\<rparr>, return_date = None\<rparr>]\<rparr>;
       r = calculate_late_fee_for_book d \<lparr>day = 124, tod = 5\<rparr> ''123456'' 1
   in valid_patron_id ''123456'' \<and> get_book_by_id d 1 \<noteq> None
      \<and> fee_amount r = 13 / 2 \<and> days_overdue r = 10"
proof -
  define d where "d = \<lparr>books = [\<lparr>bk_id = 1, bk_title = ''Dune'', bk_author = ''Herbert'',
                       bk_isbn = ''9780441013593'', total_copies = 2, available_copies = 1\<rparr>],
            borrow_records = [\<lparr>patron_id = ''123456'', book_id = 1,
                               borrow_date = \<lparr>day = 100, tod = 0\<rparr>,
                               due_date = \<lparr>day = 114, tod = 0\<rparr>, return_date = None\<rparr>]\<rparr>"
  define l where "l = \<lparr>loan_book_id = 1, loan_title = ''Dune'', loan_author = ''Herbert'',
       loan_borrow_date = \<lparr>day = 100, tod = 0\<rparr>, loan_due_date = \<lparr>day = 114, tod = 0\<rparr>,
       is_overdue = True\<rparr>"
  have v: "valid_patron_id ''123456''"
    by (simp add: valid_patron_id_def isdigit_def py_digit_def)
  have b: "get_book_by_id d 1 = Some (hd (books d))"
    by (simp add: d_def get_book_by_id_def)
  have f: "find (\<lambda>l. loan_book_id l = 1) (get_patron_borrowed_books d \<lparr>day = 124, tod = 5\<rparr> ''123456'') = Some l"
    by (simp add: d_def l_def get_patron_borrowed_books_def loan_of_def is_open_loan_def
        get_book_by_id_def dt_less_def)
  show ?thesis
    using calculate_late_fee_formula[OF v b f] v b
    by (simp add: Let_def d_def[symmetric] l_def)
qed

subsection \<open>Availability over sequences of borrows and returns\<close>

lemma find_map_update:
  "find (\<lambda>x. bk_id x = i) (map (\<lambda>x. if bk_id x = j then x\<lparr>available_copies := available_copies x + k\<rparr> else x) xs)
   = map_option (\<lambda>x. if bk_id x = j then x\<lparr>available_copies := available_copies x + k\<rparr> else x)
       (find (\<lambda>x. bk_id x = i) xs)"
  by (induction xs) auto

lemma get_book_after_update:
  "get_book_by_id (fst (update_book_availability True d j k)) i
   = map_option (\<lambda>x. if bk_id x = j then x\<lparr>available_copies := available_copies x + k\<rparr> else x)
       (get_book_by_id d i)"
  by (simp add: update_book_availability_def get_book_by_id_def find_map_update)

lemma get_book_id: "get_book_by_id d i = Some bk \<Longrightarrow> bk_id bk = i"
  by (auto simp: get_book_by_id_def find_Some_iff)

lemma get_book_updated:
  assumes "get_book_by_id d i = Some bk"
  shows "get_book_by_id (fst (update_book_availability True d j k)) i
         = Some (if i = j then bk\<lparr>available_copies := available_copies bk + k\<rparr> else bk)"
  using assms get_book_id[OF assms] by (simp add: get_book_after_update)

lemma close_first_other:
  "c \<noteq> b \<Longrightarrow>
   filter (\<lambda>r. book_id r = c \<and> return_date r = None) (close_first p b rd rs)
   = filter (\<lambda>r. book_id r = c \<and> return_date r = None) rs"
  by (induction rs) auto

lemma close_first_same:
  "\<exists>r \<in> set rs. is_open_loan p r \<and> book_id r = b \<Longrightarrow>
   Suc (length (filter (\<lambda>r. book_id r = b \<and> return_date r = None) (close_first p b rd rs)))
   = length (filter (\<lambda>r. book_id r = b \<and> return_date r = None) rs)"
  by (induction rs) (auto simp: is_open_loan_def)

lemma get_book_records_update [simp]:
  "get_book_by_id (d\<lparr>borrow_records := rs\<rparr>) i = get_book_by_id d i"
  by (simp add: get_book_by_id_def)

lemma borrowed_has_record:
  assumes "find (\<lambda>l. loan_book_id l = b) (get_patron_borrowed_books d now p) = Some l"
  shows "\<exists>r \<in> set (borrow_records d). is_open_loan p r \<and> book_id r = b"
proof -
  from assms have "l \<in> set (get_patron_borrowed_books d now p)" and "loan_book_id l = b"
    by (auto simp: find_Some_iff in_set_conv_nth)
  then show ?thesis
    by (auto simp: get_patron_borrowed_books_def loan_of_def split: option.splits)
qed

subsection \<open>One step\<close>

lemma borrow_cases:
  "borrow_book_by_patron d now rok aok p c = (d', s, m) \<Longrightarrow>
     d' = d
   \<or> (m = Db_error_availability \<and> books d' = books d)
   \<or> (\<exists>bk. get_book_by_id d c = Some bk \<and> 0 < available_copies bk
        \<and> d' = fst (update_book_availability True
                 (fst (insert_borrow_record True d p c now (add_days now 14))) c (- 1)))"
  by (auto simp: borrow_book_by_patron_def Let_def insert_borrow_record_def
      update_book_availability_def split: option.splits if_splits prod.splits)

lemma return_cases:
  "return_book_by_patron d now rok aok p c = (d', s, m) \<Longrightarrow>
     d' = d
   \<or> ((\<exists>r \<in> set (borrow_records d). is_open_loan p r \<and> book_id r = c)
       \<and> (d' = fst (update_borrow_record_return_date True d p c now)
          \<or> d' = fst (update_book_availability True
                 (fst (update_borrow_record_return_date True d p c now)) c 1)))"
  by (auto simp: return_book_by_patron_def Let_def update_borrow_record_return_date_def
      update_book_availability_def dest: borrowed_has_record
      split: option.splits if_splits prod.splits)

lemma nonneg_books_cong:
  "copies_nonneg d b t \<Longrightarrow> books d' = books d \<Longrightarrow> copies_nonneg d' b t"
  by (simp add: copies_nonneg_def get_book_by_id_def)

lemma nonneg_borrow_done:
  assumes "copies_nonneg d b t" and "get_book_by_id d c = Some bk" and "0 < available_copies bk"
  shows "copies_nonneg (fst (update_book_availability True
           (fst (insert_borrow_record True d p c now due)) c (- 1))) b t"
proof -
  from assms(1) obtain bb where bb: "get_book_by_id d b = Some bb" "total_copies bb = t"
      "0 \<le> available_copies bb"
    by (auto simp: copies_nonneg_def)
  have "get_book_by_id (fst (insert_borrow_record True d p c now due)) b = Some bb"
    using bb by (simp add: insert_borrow_record_def)
  from get_book_updated[OF this] show ?thesis
    using bb assms(2,3) by (auto simp: copies_nonneg_def)
qed

lemma nonneg_return_done:
  assumes "copies_nonneg d b t"
  shows "copies_nonneg (fst (update_book_availability True
           (fst (update_borrow_record_return_date True d p c now)) c 1)) b t"
proof -
  from assms(1) obtain bb where bb: "get_book_by_id d b = Some bb" "total_copies bb = t"
      "0 \<le> available_copies bb"
    by (auto simp: copies_nonneg_def)
  have "get_book_by_id (fst (update_borrow_record_return_date True d p c now)) b = Some bb"
    using bb by (simp add: update_borrow_record_return_date_def)
  from get_book_updated[OF this] show ?thesis
    using bb by (auto simp: copies_nonneg_def)
qed

lemma step_nonneg:
  assumes "copies_nonneg d b t"
  shows "copies_nonneg (apply_op d x) b t"
proof (cases x)
  case (Borrow_op now rok aok p c)
  obtain d' s m where r: "borrow_book_by_patron d now rok aok p c = (d', s, m)"
    by (metis prod_cases3)
  from borrow_cases[OF r] have "copies_nonneg d' b t"
    using assms nonneg_books_cong nonneg_borrow_done by blast
  then show ?thesis by (simp add: Borrow_op r)
next
  case (Return_op now rok aok p c)
  obtain d' s m where r: "return_book_by_patron d now rok aok p c = (d', s, m)"
    by (metis prod_cases3)
  have "books (fst (update_borrow_record_return_date True d p c now)) = books d"
    by (simp add: update_borrow_record_return_date_def)
  with return_cases[OF r] have "copies_nonneg d' b t"
    using assms nonneg_books_cong nonneg_return_done by blast
  then show ?thesis by (simp add: Return_op r)
qed


lemma open_after_insert:
  "open_loans_of_book (fst (insert_borrow_record True d p c now due)) b
   = open_loans_of_book d b + (if c = b then 1 else 0)"
  by (simp add: open_loans_of_book_def insert_borrow_record_def)

lemma open_after_update:
  "open_loans_of_book (fst (update_book_availability ok d j k)) b = open_loans_of_book d b"
  by (simp add: open_loans_of_book_def update_book_availability_def)

lemma open_after_close_other:
  "c \<noteq> b \<Longrightarrow>
   open_loans_of_book (fst (update_borrow_record_return_date True d p c now)) b
   = open_loans_of_book d b"
  by (simp add: open_loans_of_book_def update_borrow_record_return_date_def close_first_other)

lemma open_after_close_same:
  "\<exists>r \<in> set (borrow_records d). is_open_loan p r \<and> book_id r = b \<Longrightarrow>
   Suc (open_loans_of_book (fst (update_borrow_record_return_date True d p b now)) b)
   = open_loans_of_book d b"
  by (simp add: open_loans_of_book_def update_borrow_record_return_date_def close_first_same)

lemma accounted_borrow_done:
  assumes "copies_accounted d b t" and "get_book_by_id d c = Some bk" and "0 < available_copies bk"
  shows "copies_accounted (fst (update_book_availability True
           (fst (insert_borrow_record True d p c now due)) c (- 1))) b t"
proof -
  from assms(1) obtain bb where bb: "get_book_by_id d b = Some bb" "total_copies bb = t"
      "0 \<le> available_copies bb" "available_copies bb + int (open_loans_of_book d b) \<le> t"
    by (auto simp: copies_accounted_def)
  have "get_book_by_id (fst (insert_borrow_record True d p c now due)) b = Some bb"
    using bb by (simp add: insert_borrow_record_def)
  from get_book_updated[OF this] show ?thesis
    using bb assms(2,3)
    by (auto simp: copies_accounted_def open_after_update open_after_insert)
qed

lemma accounted_return_closed:
  assumes "copies_accounted d b t"
    and "\<exists>r \<in> set (borrow_records d). is_open_loan p r \<and> book_id r = c"
  shows "copies_accounted (fst (update_borrow_record_return_date True d p c now)) b t"
proof -
  from assms(1) obtain bb where bb: "get_book_by_id d b = Some bb" "total_copies bb = t"
      "0 \<le> available_copies bb" "available_copies bb + int (open_loans_of_book d b) \<le> t"
    by (auto simp: copies_accounted_def)
  have g: "get_book_by_id (fst (update_borrow_record_return_date True d p c now)) b = Some bb"
    using bb by (simp add: update_borrow_record_return_date_def)
  have "open_loans_of_book (fst (update_borrow_record_return_date True d p c now)) b
        \<le> open_loans_of_book d b"
  proof (cases "c = b")
    case True
    with open_after_close_same[of d p b now] assms(2) show ?thesis by simp
  next
    case False
    then show ?thesis by (simp add: open_after_close_other)
  qed
  with g bb show ?thesis by (auto simp: copies_accounted_def)
qed

lemma accounted_return_done:
  assumes "copies_accounted d b t"
    and "\<exists>r \<in> set (borrow_records d). is_open_loan p r \<and> book_id r = c"
  shows "copies_accounted (fst (update_book_availability True
           (fst (update_borrow_record_return_date True d p c now)) c 1)) b t"
proof -
  from assms(1) obtain bb where bb: "get_book_by_id d b = Some bb" "total_copies bb = t"
      "0 \<le> available_copies bb" "available_copies bb + int (open_loans_of_book d b) \<le> t"
    by (auto simp: copies_accounted_def)
  have g: "get_book_by_id (fst (update_borrow_record_return_date True d p c now)) b = Some bb"
    using bb by (simp add: update_borrow_record_return_date_def)
  show ?thesis
  proof (cases "c = b")
    case True
    with open_after_close_same[of d p b now] assms(2)
    have "Suc (open_loans_of_book (fst (update_borrow_record_return_date True d p c now)) b)
          = open_loans_of_book d b" by simp
    with get_book_updated[OF g] bb True show ?thesis
      by (auto simp: copies_accounted_def open_after_update)
  next
    case False
    with get_book_updated[OF g] bb show ?thesis
      by (auto simp: copies_accounted_def open_after_update open_after_close_other)
  qed
qed

lemma step_accounted:
  assumes "copies_accounted d b t" and "\<not> half_borrowed d x"
  shows "copies_accounted (apply_op d x) b t"
proof (cases x)
  case (Borrow_op now rok aok p c)
  obtain d' s m where r: "borrow_book_by_patron d now rok aok p c = (d', s, m)"
    by (metis prod_cases3)
  from assms(2) have "m \<noteq> Db_error_availability" by (simp add: Borrow_op r)
  with borrow_cases[OF r] have "copies_accounted d' b t"
    using assms(1) accounted_borrow_done by blast
  then show ?thesis by (simp add: Borrow_op r)
next
  case (Return_op now rok aok p c)
  obtain d' s m where r: "return_book_by_patron d now rok aok p c = (d', s, m)"
    by (metis prod_cases3)
  from return_cases[OF r] have "copies_accounted d' b t"
    using assms(1) accounted_return_closed accounted_return_done by blast
  then show ?thesis by (simp add: Return_op r)
qed

lemma run_nonneg: "copies_nonneg d b t \<Longrightarrow> copies_nonneg (run_ops d xs) b t"
  by (induction xs arbitrary: d) (simp_all add: step_nonneg)

lemma run_accounted:
  "copies_accounted d b t \<Longrightarrow> no_half_borrow d xs \<Longrightarrow> copies_accounted (run_ops d xs) b t"
  by (induction xs arbitrary: d) (simp_all add: step_accounted)

subsection \<open>A freshly added book\<close>

lemma fold_max_ge: "(a::int) \<le> fold max xs a"
  by (induction xs arbitrary: a) (auto intro: order_trans[OF max.cobounded2])

lemma fold_max_mem: "x \<in> set xs \<Longrightarrow> (x::int) \<le> fold max xs a"
  by (induction xs arbitrary: a) (auto intro: order_trans[OF max.cobounded1 fold_max_ge])

lemma ids_below_next: "bk \<in> set (books d) \<Longrightarrow> bk_id bk < next_book_id d"
  using fold_max_mem[of "bk_id bk" "map bk_id (books d)" 0] by (simp add: next_book_id_def)

lemma next_id_unused: "get_book_by_id d (next_book_id d) = None"
  using ids_below_next[of _ d] by (fastforce simp: get_book_by_id_def find_None_iff)

lemma find_append_new:
  "find P xs = None \<Longrightarrow> P x \<Longrightarrow> find P (xs @ [x]) = Some x"
  by (induction xs) (auto split: if_splits)

lemma add_book_success:
  assumes "add_book_to_catalog d insert_ok title author isbn copies = (d', True, msg)"
  shows "d' = d\<lparr>books := books d @
                [\<lparr>bk_id = next_book_id d, bk_title = strip title, bk_author = strip author,
                  bk_isbn = isbn, total_copies = int_value copies,
                  available_copies = int_value copies\<rparr>]\<rparr>
       \<and> 0 < int_value copies \<and> length isbn = 13 \<and> get_book_by_isbn d isbn = None"
  using assms
  by (auto simp: add_book_to_catalog_def insert_book_def Let_def split: if_splits option.splits)

lemma fresh_accounted:
  assumes "records_reference_books d"
    and "add_book_to_catalog d insert_ok title author isbn copies = (d', True, msg)"
  shows "copies_accounted d' (next_book_id d) (int_value copies)"
    and "\<exists>bk. get_book_by_id d' (next_book_id d) = Some bk
           \<and> available_copies bk = total_copies bk"
proof -
  note s = add_book_success[OF assms(2)]
  have g: "get_book_by_id d' (next_book_id d) =
      Some \<lparr>bk_id = next_book_id d, bk_title = strip title, bk_author = strip author,
            bk_isbn = isbn, total_copies = int_value copies,
            available_copies = int_value copies\<rparr>"
    using s next_id_unused[of d] by (simp add: get_book_by_id_def find_append_new)
  have "\<forall>r \<in> set (borrow_records d). book_id r \<noteq> next_book_id d"
    using assms(1) next_id_unused[of d] by (auto simp: records_reference_books_def list_all_iff)
  then have "open_loans_of_book d' (next_book_id d) = 0"
    using s by (auto simp: open_loans_of_book_def filter_empty_conv)
  with g s show "copies_accounted d' (next_book_id d) (int_value copies)"
    by (simp add: copies_accounted_def)
  from g show "\<exists>bk. get_book_by_id d' (next_book_id d) = Some bk
           \<and> available_copies bk = total_copies bk" by simp
qed

text \<open>
  C2, as amended. Start from a book that \<open>add_book_to_catalog\<close> has just added to a
  catalog whose borrow records are all of books of the catalog, and run any sequence of
  borrows and returns, of this book or of others, by any patrons, with any outcomes of
  the storage writes. The book's \<open>available_copies\<close> is never negative and its
  \<open>total_copies\<close> never changes; and \<open>available_copies\<close> never exceeds
  \<open>total_copies\<close> as long as no borrow of the sequence ended with its record written and
  its availability update failed.
\<close>

theorem available_copies_bounds:
  assumes "records_reference_books d0"
    and "add_book_to_catalog d0 insert_ok title author isbn copies = (d1, True, msg)"
  shows "\<exists>bk. get_book_by_id (run_ops d1 ops) (next_book_id d0) = Some bk
           \<and> total_copies bk = int_value copies
           \<and> 0 \<le> available_copies bk
           \<and> (no_half_borrow d1 ops \<longrightarrow> available_copies bk \<le> total_copies bk)"
proof -
  note f = fresh_accounted(1)[OF assms]
  then have "copies_nonneg d1 (next_book_id d0) (int_value copies)"
    by (auto simp: copies_accounted_def copies_nonneg_def)
  from run_nonneg[OF this, of ops] obtain bk where
    bk: "get_book_by_id (run_ops d1 ops) (next_book_id d0) = Some bk"
        "total_copies bk = int_value copies" "0 \<le> available_copies bk"
    by (auto simp: copies_nonneg_def)
  have "available_copies bk \<le> total_copies bk" if "no_half_borrow d1 ops"
    using run_accounted[OF f that] bk by (auto simp: copies_accounted_def)
  with bk show ?thesis by blast
qed

text \<open>
  One copy, two borrows (the second refused, no copy being left) and a return: the
  counter ends at 1 of 1.
\<close>

theorem available_copies_bounds_witness:
  "records_reference_books empty_db
   \<and> add_book_to_catalog empty_db True ''Dune'' ''Herbert'' ''9780441013593'' (PyInt 1)
       = (\<lparr>books = [\<lparr>bk_id = 1, bk_title = ''Dune'', bk_author = ''Herbert'',
                  bk_isbn = ''9780441013593'', total_copies = 1, available_copies = 1\<rparr>],
           borrow_records = []\<rparr>, True, Book_added ''Dune'')
   \<and> no_half_borrow
        \<lparr>books = [\<lparr>bk_id = 1, bk_title = ''Dune'', bk_author = ''Herbert'',
                  bk_isbn = ''9780441013593'', total_copies = 1, available_copies = 1\<rparr>],
           borrow_records = []\<rparr>
        [Borrow_op \<lparr>day = 100, tod = 0\<rparr> True True ''123456'' 1,
         Borrow_op \<lparr>day = 100, tod = 7\<rparr> True True ''654321'' 1,
         Return_op \<lparr>day = 101, tod = 0\<rparr> True True ''123456'' 1]
   \<and> (\<exists>bk. get_book_by_id
             (run_ops
                \<lparr>books = [\<lparr>bk_id = 1, bk_title = ''Dune'', bk_author = ''Herbert'',
                  bk_isbn = ''9780441013593'', total_copies = 1, available_copies = 1\<rparr>],
                  borrow_records = []\<rparr>
                [Borrow_op \<lparr>day = 100, tod = 0\<rparr> True True ''123456'' 1,
                 Borrow_op \<lparr>day = 100, tod = 7\<rparr> True True ''654321'' 1,
                 Return_op \<lparr>day = 101, tod = 0\<rparr> True True ''123456'' 1]) 1 = Some bk
           \<and> total_copies bk = 1 \<and> 0 \<le> available_copies bk
           \<and> available_copies bk \<le> total_copies bk)"
proof -
  let ?d1 = "\<lparr>books = [\<lparr>bk_id = 1, bk_title = ''Dune'', bk_author = ''Herbert'',
                  bk_isbn = ''9780441013593'', total_copies = 1, available_copies = 1\<rparr>],
           borrow_records = []\<rparr>"
  let ?ops = "[Borrow_op \<lparr>day = 100, tod = 0\<rparr> True True ''123456'' 1,
         Borrow_op \<lparr>day = 100, tod = 7\<rparr> True True ''654321'' 1,
         Return_op \<lparr>day = 101, tod = 0\<rparr> True True ''123456'' 1]"
  have r: "records_reference_books empty_db"
    by (simp add: records_reference_books_def empty_db_def)
  have a: "add_book_to_catalog empty_db True ''Dune'' ''Herbert'' ''9780441013593'' (PyInt 1)
       = (?d1, True, Book_added ''Dune'')"
    by (simp add: eval_defs)
  have n: "no_half_borrow ?d1 ?ops"
    by (simp add: eval_defs)
  have i: "next_book_id empty_db = 1"
    by (simp add: next_book_id_def empty_db_def)
  from available_copies_bounds[OF r a, of ?ops] r a n i show ?thesis
    by auto
qed

text \<open>
  C2 as the specification states it, for every sequence, fails: a borrow whose record is
  written and whose availability update fails leaves an open loan that took no copy,
  and the return of that loan takes the counter of a book with one copy to 2.
\<close>

theorem available_copies_exceed_total:
  "get_book_by_id
     (run_ops (fst (add_book_to_catalog empty_db True ''Dune'' ''Herbert'' ''9780441013593'' (PyInt 1)))
        [Borrow_op \<lparr>day = 100, tod = 0\<rparr> True False ''123456'' 1,
         Return_op \<lparr>day = 101, tod = 0\<rparr> True True ''123456'' 1]) 1
   = Some \<lparr>bk_id = 1, bk_title = ''Dune'', bk_author = ''Herbert'',
            bk_isbn = ''9780441013593'', total_copies = 1, available_copies = 2\<rparr>"
  by (simp add: eval_defs)


subsection \<open>The borrowing limit\<close>

text \<open>
  C3. A borrow ends with the limit message exactly when the patron id is valid, the book
  exists and has a copy available, and the patron's count of open loans is strictly
  greater than 5. So a patron with 6 or more open loans is blocked, and a patron with
  exactly 5 open loans borrows a 6th book when the two storage writes succeed.
\<close>

theorem borrow_limit_boundary:
  "(snd (snd (borrow_book_by_patron d now record_ok avail_ok p b)) = Limit_reached
      \<longleftrightarrow> valid_patron_id p
          \<and> (\<exists>bk. get_book_by_id d b = Some bk \<and> 0 < available_copies bk)
          \<and> 5 < get_patron_borrow_count d p)
   \<and> (valid_patron_id p \<and> get_book_by_id d b = Some bk \<and> 0 < available_copies bk
        \<and> 6 \<le> get_patron_borrow_count d p
      \<longrightarrow> borrow_book_by_patron d now record_ok avail_ok p b = (d, False, Limit_reached))
   \<and> (valid_patron_id p \<and> get_book_by_id d b = Some bk \<and> 0 < available_copies bk
        \<and> get_patron_borrow_count d p = 5
      \<longrightarrow> (let (d', success, msg) = borrow_book_by_patron d now True True p b
           in success \<and> msg = Borrowed (bk_title bk) (day now + 14)
              \<and> get_patron_borrow_count d' p = 6))"
  by (auto simp: borrow_book_by_patron_def Let_def insert_borrow_record_def
      update_book_availability_def get_patron_borrow_count_def is_open_loan_def add_days_def
      split: option.splits if_splits prod.splits)

text \<open>
  A patron with five open loans borrows a sixth book; the seventh borrow is refused.
\<close>

theorem borrow_limit_boundary_witness:
  "valid_patron_id ''123456'' \<and> get_book_by_id five_loans_db 1 = Some dune
   \<and> 0 < available_copies dune \<and> get_patron_borrow_count five_loans_db ''123456'' = 5
   \<and> fst (snd (borrow_book_by_patron five_loans_db \<lparr>day = 110, tod = 0\<rparr> True True ''123456'' 1))
   \<and> get_patron_borrow_count
        (fst (borrow_book_by_patron five_loans_db \<lparr>day = 110, tod = 0\<rparr> True True ''123456'' 1))
        ''123456'' = 6
   \<and> snd (snd (borrow_book_by_patron
        (fst (borrow_book_by_patron five_loans_db \<lparr>day = 110, tod = 0\<rparr> True True ''123456'' 1))
        \<lparr>day = 110, tod = 1\<rparr> True True ''123456'' 1)) = Limit_reached"
proof -
  let ?d6 = "fst (borrow_book_by_patron five_loans_db \<lparr>day = 110, tod = 0\<rparr> True True ''123456'' 1)"
  have v: "valid_patron_id ''123456''" by (simp add: eval_defs)
  have g: "get_book_by_id five_loans_db 1 = Some dune" by (simp add: eval_defs)
  have a: "0 < available_copies dune" by (simp add: dune_def)
  have c: "get_patron_borrow_count five_loans_db ''123456'' = 5" by (simp add: eval_defs)
  have g6: "\<exists>bk. get_book_by_id ?d6 1 = Some bk \<and> 0 < available_copies bk"
    by (simp add: eval_defs)
  from borrow_limit_boundary[of five_loans_db "\<lparr>day = 110, tod = 0\<rparr>" True True "''123456''" 1 dune]
    v g a c
  have s: "fst (snd (borrow_book_by_patron five_loans_db \<lparr>day = 110, tod = 0\<rparr> True True ''123456'' 1))"
    and c6: "get_patron_borrow_count ?d6 ''123456'' = 6"
    by (auto simp: Let_def split: prod.splits)
  from borrow_limit_boundary[of ?d6 "\<lparr>day = 110, tod = 1\<rparr>" True True "''123456''" 1 dune]
    v g6 c6
  have "snd (snd (borrow_book_by_patron ?d6 \<lparr>day = 110, tod = 1\<rparr> True True ''123456'' 1)) = Limit_reached"
    by simp
  with v g a c s c6 show ?thesis by simp
qed


subsection \<open>The ISBN check\<close>

text \<open>
  C4. \<open>add_book_to_catalog\<close> answers with the ISBN message exactly when the title and
  author checks pass and the isbn does not have 13 characters: the characters are not
  looked at. On an empty catalog the isbn \<open>123456789012A\<close> is accepted and the book is
  stored, although the isbn is not made of digits.
\<close>

theorem add_book_accepts_isbn_with_letter:
  "(snd (snd (add_book_to_catalog d insert_ok title author isbn copies)) = Isbn_format
      \<longleftrightarrow> strip title \<noteq> [] \<and> length (strip title) \<le> 200
          \<and> strip author \<noteq> [] \<and> length (strip author) \<le> 100 \<and> length isbn \<noteq> 13)
   \<and> add_book_to_catalog empty_db True ''Valid Title'' ''Valid Author'' ''123456789012A'' (PyInt 1)
       = (\<lparr>books = [\<lparr>bk_id = 1, bk_title = ''Valid Title'', bk_author = ''Valid Author'',
                      bk_isbn = ''123456789012A'', total_copies = 1, available_copies = 1\<rparr>],
           borrow_records = []\<rparr>, True, Book_added ''Valid Title'')
   \<and> \<not> isdigit ''123456789012A'' \<and> \<not> spec_isbn_format ''123456789012A''"
proof -
  have "snd (snd (add_book_to_catalog d insert_ok title author isbn copies)) = Isbn_format
      \<longleftrightarrow> strip title \<noteq> [] \<and> length (strip title) \<le> 200
          \<and> strip author \<noteq> [] \<and> length (strip author) \<le> 100 \<and> length isbn \<noteq> 13"
    by (auto simp: add_book_to_catalog_def insert_book_def Let_def strip_def
        split: option.splits)
  moreover have "add_book_to_catalog empty_db True ''Valid Title'' ''Valid Author'' ''123456789012A'' (PyInt 1)
       = (\<lparr>books = [\<lparr>bk_id = 1, bk_title = ''Valid Title'', bk_author = ''Valid Author'',
                      bk_isbn = ''123456789012A'', total_copies = 1, available_copies = 1\<rparr>],
           borrow_records = []\<rparr>, True, Book_added ''Valid Title'')"
    by (simp add: eval_defs)
  moreover have "\<not> isdigit ''123456789012A''" "\<not> spec_isbn_format ''123456789012A''"
    by (simp_all add: isdigit_def spec_isbn_format_def py_digit_def)
  ultimately show ?thesis by blast
qed

text \<open>
  The isbn with a letter is accepted; an isbn of five digits gets the ISBN message.
\<close>

theorem add_book_accepts_isbn_with_letter_witness:
  "fst (snd (add_book_to_catalog empty_db True ''Valid Title'' ''Valid Author'' ''123456789012A'' (PyInt 1)))
   \<and> snd (snd (add_book_to_catalog empty_db True ''Valid Title'' ''Valid Author'' ''12345'' (PyInt 1)))
       = Isbn_format"
proof -
  have t: "strip ''Valid Title'' = ''Valid Title''" "strip ''Valid Author'' = ''Valid Author''"
    by (simp_all add: strip_def py_space_def)
  from add_book_accepts_isbn_with_letter[of empty_db True "''Valid Title''" "''Valid Author''" "''12345''" "PyInt 1"]
  show ?thesis by (simp add: t)
qed

subsection \<open>Storage errors during a borrow\<close>

text \<open>
  C6. When a borrow passes its checks and the creation of the borrow record fails, the
  result is the storage error of the record and the state is unchanged, so the book's
  \<open>available_copies\<close> is not decremented. When the record is created and the
  availability update fails, the result is the storage error of the availability, the
  books are unchanged and the new record stays in the store. Conversely, these two
  messages come about in no other way.
\<close>

theorem borrow_storage_errors:
  "(valid_patron_id p \<and> get_book_by_id d b = Some bk \<and> 0 < available_copies bk
      \<and> get_patron_borrow_count d p \<le> 5
     \<longrightarrow> borrow_book_by_patron d now False avail_ok p b = (d, False, Db_error_borrow_record)
       \<and> borrow_book_by_patron d now True False p b =
           (d\<lparr>borrow_records := borrow_records d @
                 [\<lparr>patron_id = p, book_id = b, borrow_date = now, due_date = add_days now 14,
                   return_date = None\<rparr>]\<rparr>, False, Db_error_availability))
   \<and> (borrow_book_by_patron d now record_ok avail_ok p b = (d', success, Db_error_borrow_record)
     \<longrightarrow> \<not> success \<and> d' = d \<and> \<not> record_ok)
   \<and> (borrow_book_by_patron d now record_ok avail_ok p b = (d', success, Db_error_availability)
     \<longrightarrow> \<not> success \<and> record_ok \<and> \<not> avail_ok \<and> books d' = books d
       \<and> borrow_records d' = borrow_records d @
            [\<lparr>patron_id = p, book_id = b, borrow_date = now, due_date = add_days now 14,
              return_date = None\<rparr>])"
  by (auto simp: borrow_book_by_patron_def Let_def insert_borrow_record_def
      update_book_availability_def
      split: option.splits if_splits prod.splits)

text \<open>
  A patron with five open loans borrows a book with four copies left. When the record
  cannot be written nothing changes; when the availability update fails the catalog is
  unchanged and the patron has six open loans.
\<close>

theorem borrow_storage_errors_witness:
  "valid_patron_id ''123456'' \<and> get_book_by_id five_loans_db 1 = Some dune
   \<and> 0 < available_copies dune \<and> get_patron_borrow_count five_loans_db ''123456'' \<le> 5
   \<and> borrow_book_by_patron five_loans_db \<lparr>day = 110, tod = 0\<rparr> False True ''123456'' 1
       = (five_loans_db, False, Db_error_borrow_record)
   \<and> books (fst (borrow_book_by_patron five_loans_db \<lparr>day = 110, tod = 0\<rparr> True False ''123456'' 1))
       = [dune]
   \<and> get_patron_borrow_count
        (fst (borrow_book_by_patron five_loans_db \<lparr>day = 110, tod = 0\<rparr> True False ''123456'' 1))
        ''123456'' = 6"
proof -
  have v: "valid_patron_id ''123456''" by (simp add: eval_defs)
  have g: "get_book_by_id five_loans_db 1 = Some dune" by (simp add: eval_defs)
  have a: "0 < available_copies dune" by (simp add: dune_def)
  have c: "get_patron_borrow_count five_loans_db ''123456'' \<le> 5" by (simp add: eval_defs)
  from borrow_storage_errors[of "''123456''" five_loans_db 1 dune "\<lparr>day = 110, tod = 0\<rparr>" True]
    v g a c
  show ?thesis
    by (simp add: get_patron_borrow_count_def is_open_loan_def five_loans_db_def open_loan_def)
qed

subsection \<open>The fee at return time\<close>

text \<open>
  C7. A successful return found an open loan of the patron for the book. When the
  calendar day of the return is after the calendar day the loan was due, the result
  reports the difference of the two calendar days as the days late, and a late fee of
  that many times 0.50; otherwise the result is the on-time message, which has no fee.
\<close>

theorem return_late_fee:
  assumes "return_book_by_patron d now record_ok avail_ok p b = (d', True, msg)"
  shows "\<exists>bk l. get_book_by_id d b = Some bk
           \<and> find (\<lambda>l. loan_book_id l = b) (get_patron_borrowed_books d now p) = Some l
           \<and> (if day (loan_due_date l) < day now
              then msg = Returned_late (day now - day (loan_due_date l))
                           (of_int (day now - day (loan_due_date l)) * (1 / 2))
              else msg = Returned (bk_title bk))"
  using assms
  by (auto simp: return_book_by_patron_def Let_def
      split: option.splits if_splits prod.splits)

text \<open>
  A loan due on day 114 one microsecond before midnight and returned on day 115 one
  microsecond after midnight is one day late; returned on day 114 it is on time.
\<close>

theorem return_late_fee_witness:
  "snd (return_book_by_patron one_loan_db \<lparr>day = 115, tod = 1\<rparr> True True ''123456'' 1)
     = (True, Returned_late 1 (1 / 2))
   \<and> snd (return_book_by_patron one_loan_db \<lparr>day = 114, tod = 5\<rparr> True True ''123456'' 1)
     = (True, Returned ''Dune'')"
proof -
  obtain d1 m1 where r1: "return_book_by_patron one_loan_db \<lparr>day = 115, tod = 1\<rparr> True True ''123456'' 1
      = (d1, True, m1)"
    by (simp add: eval_defs)
  obtain d2 m2 where r2: "return_book_by_patron one_loan_db \<lparr>day = 114, tod = 5\<rparr> True True ''123456'' 1
      = (d2, True, m2)"
    by (simp add: eval_defs)
  have g: "get_book_by_id one_loan_db 1 = Some dune" by (simp add: eval_defs)
  have f: "day (loan_due_date l) = 114"
    if "find (\<lambda>l. loan_book_id l = 1) (get_patron_borrowed_books one_loan_db t ''123456'') = Some l"
    for l t
    using that by (auto simp: eval_defs)
  from return_late_fee[OF r1] g f have "m1 = Returned_late 1 (1 / 2)" by fastforce
  moreover from return_late_fee[OF r2] g f have "m2 = Returned ''Dune''"
    by (fastforce simp: dune_def)
  ultimately show ?thesis unfolding r1 r2 by simp
qed


lemma calculate_capped: "fee_amount (calculate_late_fee_for_book d now p b) \<le> 15"
proof -
  have "round2 (tiered_fee n) \<le> 15" if "0 < n" for n
    unfolding tiered_fee_half[OF that] round2_half by simp
  then show ?thesis
    by (auto simp: calculate_late_fee_for_book_def Let_def split: option.splits)
qed

text \<open>
  C10. A successful return that is \<open>n > 0\<close> calendar days late reports the fee
  \<open>n * 0.50\<close>, with no ceiling: when \<open>n > 30\<close> that fee is above 15.00, while
  \<open>calculate_late_fee_for_book\<close> gives exactly 15.00 for the same loan at the same time,
  and never gives more than 15.00 for any loan.
\<close>

theorem return_fee_uncapped:
  assumes "return_book_by_patron d now record_ok avail_ok p b = (d', True, msg)"
    and "find (\<lambda>l. loan_book_id l = b) (get_patron_borrowed_books d now p) = Some l"
    and "n = day now - day (loan_due_date l)"
    and "0 < n"
  shows "msg = Returned_late n (of_int n * (1 / 2))
       \<and> (30 < n \<longrightarrow> 15 < (of_int n * (1 / 2) :: rat)
                   \<and> fee_amount (calculate_late_fee_for_book d now p b) = 15)
       \<and> (\<forall>d0 now0 p0 b0. fee_amount (calculate_late_fee_for_book d0 now0 p0 b0) \<le> 15)"
proof -
  have m: "msg = Returned_late n (of_int n * (1 / 2))"
    using assms
    by (auto simp: return_book_by_patron_def Let_def split: option.splits if_splits prod.splits)
  have v: "valid_patron_id p" and bk: "\<exists>bk. get_book_by_id d b = Some bk"
    using assms(1)
    by (auto simp: return_book_by_patron_def Let_def split: option.splits if_splits prod.splits)
  then obtain bk where b: "get_book_by_id d b = Some bk" by blast
  have c: "fee_amount (calculate_late_fee_for_book d now p b) = 15" if "30 < n"
  proof -
    have "tiered_fee n = 15" using that by (simp add: tiered_fee_def)
    then show ?thesis
      using that assms(3) unfolding calculate_found[OF v b assms(2)]
      by (simp add: round2_def)
  qed
  have big: "15 < (of_int n * (1 / 2) :: rat)" if "30 < n"
    using that by simp
  show ?thesis using m c big calculate_capped by blast
qed

text \<open>
  The loan due on day 114, returned on day 145: 31 days late, a fee of 15.50 at the
  return, where the calculator says 15.00.
\<close>

theorem return_fee_uncapped_witness:
  "snd (return_book_by_patron one_loan_db \<lparr>day = 145, tod = 0\<rparr> True True ''123456'' 1)
     = (True, Returned_late 31 (31 / 2))
   \<and> fee_amount (calculate_late_fee_for_book one_loan_db \<lparr>day = 145, tod = 0\<rparr> ''123456'' 1) = 15"
proof -
  let ?l = "\<lparr>loan_book_id = 1, loan_title = ''Dune'', loan_author = ''Herbert'',
       loan_borrow_date = \<lparr>day = 100, tod = 86399999999\<rparr>,
       loan_due_date = \<lparr>day = 114, tod = 86399999999\<rparr>, is_overdue = True\<rparr>"
  obtain d1 m1 where r: "return_book_by_patron one_loan_db \<lparr>day = 145, tod = 0\<rparr> True True ''123456'' 1
      = (d1, True, m1)"
    by (simp add: eval_defs)
  have f: "find (\<lambda>l. loan_book_id l = 1)
      (get_patron_borrowed_books one_loan_db \<lparr>day = 145, tod = 0\<rparr> ''123456'') = Some ?l"
    by (simp add: eval_defs)
  have n: "(31::int) = day \<lparr>day = 145, tod = 0\<rparr> - day (loan_due_date ?l)" by simp
  from return_fee_uncapped[OF r f n] show ?thesis unfolding r by simp
qed

subsection \<open>The validation order of \<open>add_book_to_catalog\<close>\<close>

lemma strip_Nil [simp]: "strip [] = []"
  by (simp add: strip_def)

lemma isbn_absent_iff: "get_book_by_isbn d i = None \<longleftrightarrow> i \<notin> set (map bk_isbn (books d))"
  by (auto simp: get_book_by_isbn_def find_None_iff)

text \<open>
  C5, as amended. For an isbn that is all digits whenever it has 13 characters, a
  call of \<open>add_book_to_catalog\<close> is rejected with the message of the first rule that
  fails, in the order title presence, title length, author presence, author length,
  isbn format, copies validity, duplicate isbn, and the store is unchanged; when no rule
  fails, the book is added if the storage insert succeeds and the call is rejected with
  the storage error if it fails. So for inputs that pass the field validations, the call
  is rejected exactly when the isbn is already in the catalog or the insert fails.
\<close>

theorem add_book_first_failing_rule:
  assumes "length isbn = 13 \<longrightarrow> spec_isbn_format isbn"
  shows "add_book_to_catalog d insert_ok title author isbn copies =
     (case spec_first_failing_rule d title author isbn copies of
        Some m \<Rightarrow> (d, False, m)
      | None \<Rightarrow>
         if insert_ok
         then (fst (insert_book True d (strip title) (strip author) isbn
                      (int_value copies) (int_value copies)),
               True, Book_added (strip title))
         else (d, False, Db_error_add))
   \<and> (spec_first_failing_rule d title author isbn copies \<in> {None, Some Duplicate_isbn}
      \<longrightarrow> (\<not> fst (snd (add_book_to_catalog d insert_ok title author isbn copies))
           \<longleftrightarrow> isbn \<in> set (map bk_isbn (books d)) \<or> \<not> insert_ok))"
proof -
  have fmt: "spec_isbn_format isbn \<longleftrightarrow> length isbn = 13"
    using assms by (auto simp: spec_isbn_format_def)
  have eq: "add_book_to_catalog d insert_ok title author isbn copies =
     (case spec_first_failing_rule d title author isbn copies of
        Some m \<Rightarrow> (d, False, m)
      | None \<Rightarrow>
         if insert_ok
         then (fst (insert_book True d (strip title) (strip author) isbn
                      (int_value copies) (int_value copies)),
               True, Book_added (strip title))
         else (d, False, Db_error_add))"
    using isbn_absent_iff[of d isbn]
    by (auto simp: add_book_to_catalog_def spec_first_failing_rule_def fmt spec_copies_valid_def
        insert_book_def Let_def split: option.splits)
  show ?thesis
    unfolding eq
    by (auto simp: spec_first_failing_rule_def split: if_splits)
qed

text \<open>
  A blank title with zero copies is answered with the title message; a fractional
  number of copies with the copies message; an isbn of the catalog with the duplicate
  message; and a valid new book is added.
\<close>

theorem add_book_first_failing_rule_witness:
  "spec_isbn_format ''9780441013593''
   \<and> add_book_to_catalog empty_db True ''  '' ''Herbert'' ''9780441013593'' (PyInt 0)
       = (empty_db, False, Title_required)
   \<and> add_book_to_catalog empty_db True ''Dune'' ''Herbert'' ''9780441013593'' (PyFloat (11 / 2))
       = (empty_db, False, Copies_invalid)
   \<and> add_book_to_catalog one_loan_db True ''Dune'' ''Herbert'' ''9780441013593'' (PyInt 1)
       = (one_loan_db, False, Duplicate_isbn)
   \<and> fst (snd (add_book_to_catalog empty_db True ''Dune'' ''Herbert'' ''9780441013593'' (PyInt 1)))"
proof -
  have f: "spec_isbn_format ''9780441013593''"
    by (simp add: spec_isbn_format_def py_digit_def)
  then have h: "length ''9780441013593'' = 13 \<longrightarrow> spec_isbn_format ''9780441013593''" by simp
  have s: "strip ''  '' = []" "strip ''Dune'' = ''Dune''" "strip ''Herbert'' = ''Herbert''"
    by (simp_all add: strip_def py_space_def)
  have r1: "spec_first_failing_rule empty_db ''  '' ''Herbert'' ''9780441013593'' (PyInt 0)
      = Some Title_required"
    by (simp add: spec_first_failing_rule_def s)
  have r2: "spec_first_failing_rule empty_db ''Dune'' ''Herbert'' ''9780441013593'' (PyFloat (11 / 2))
      = Some Copies_invalid"
    by (simp add: spec_first_failing_rule_def s f spec_copies_valid_def)
  have r3: "spec_first_failing_rule one_loan_db ''Dune'' ''Herbert'' ''9780441013593'' (PyInt 1)
      = Some Duplicate_isbn"
    by (simp add: spec_first_failing_rule_def s f spec_copies_valid_def one_loan_db_def dune_def)
  have r4: "spec_first_failing_rule empty_db ''Dune'' ''Herbert'' ''9780441013593'' (PyInt 1) = None"
    by (simp add: spec_first_failing_rule_def s f spec_copies_valid_def empty_db_def)
  from add_book_first_failing_rule[OF h, of empty_db True "''  ''" "''Herbert''" "PyInt 0"]
    add_book_first_failing_rule[OF h, of empty_db True "''Dune''" "''Herbert''" "PyFloat (11 / 2)"]
    add_book_first_failing_rule[OF h, of one_loan_db True "''Dune''" "''Herbert''" "PyInt 1"]
    add_book_first_failing_rule[OF h, of empty_db True "''Dune''" "''Herbert''" "PyInt 1"]
  show ?thesis
    by (simp add: f r1 r2 r3 r4)
qed

text \<open>
  C5 as the specification states it fails: a valid book whose isbn is not in the catalog
  is rejected when the storage insert fails, with a message that is none of the seven
  validation messages.
\<close>

theorem add_book_storage_rejection:
  "add_book_to_catalog empty_db False ''Dune'' ''Herbert'' ''9780441013593'' (PyInt 1)
     = (empty_db, False, Db_error_add)
   \<and> spec_first_failing_rule empty_db ''Dune'' ''Herbert'' ''9780441013593'' (PyInt 1) = None
   \<and> get_book_by_isbn empty_db ''9780441013593'' = None"
  by (simp add: eval_defs spec_first_failing_rule_def spec_isbn_format_def spec_copies_valid_def)

subsection \<open>The total of the patron report\<close>













subsection \<open>Searching for a book that was added\<close>

text \<open>\<open>ci_substring\<close> is the substring relation, up to the case of letters.\<close>

lemma ci_prefix_iff:
  "ci_prefix t s \<longleftrightarrow> (\<exists>w suf. s = w @ suf \<and> map sql_fold w = map sql_fold t)"
proof (induction t s rule: ci_prefix.induct)
  case (1 s)
  show ?case by simp
next
  case (2 x xs)
  show ?case by simp
next
  case (3 x xs c cs)
  show ?case
  proof
    assume "ci_prefix (x # xs) (c # cs)"
    with 3 obtain w suf where "cs = w @ suf" "map sql_fold w = map sql_fold xs"
      and "sql_fold x = sql_fold c" by auto
    then have "c # cs = (c # w) @ suf \<and> map sql_fold (c # w) = map sql_fold (x # xs)" by simp
    then show "\<exists>w suf. c # cs = w @ suf \<and> map sql_fold w = map sql_fold (x # xs)" by blast
  next
    assume "\<exists>w suf. c # cs = w @ suf \<and> map sql_fold w = map sql_fold (x # xs)"
    then obtain w suf where w: "c # cs = w @ suf" "map sql_fold w = map sql_fold (x # xs)" by blast
    then obtain w' where "w = c # w'" by (cases w) auto
    with w 3 show "ci_prefix (x # xs) (c # cs)" by auto
  qed
qed

lemma ci_substring_iff:
  "ci_substring t s \<longleftrightarrow> (\<exists>pre w suf. s = pre @ w @ suf \<and> map sql_fold w = map sql_fold t)"
proof (induction s)
  case Nil
  show ?case by auto
next
  case (Cons c cs)
  note IH = Cons.IH
  show ?case
  proof
    assume "ci_substring t (c # cs)"
    then consider "ci_prefix t (c # cs)" | "ci_substring t cs" by auto
    then show "\<exists>pre w suf. c # cs = pre @ w @ suf \<and> map sql_fold w = map sql_fold t"
    proof cases
      case 1
      then obtain w suf where "c # cs = [] @ w @ suf" "map sql_fold w = map sql_fold t"
        unfolding ci_prefix_iff by auto
      then show ?thesis by blast
    next
      case 2
      with IH obtain pre w suf where "cs = pre @ w @ suf" "map sql_fold w = map sql_fold t"
        by blast
      then have "c # cs = (c # pre) @ w @ suf" by simp
      with \<open>map sql_fold w = map sql_fold t\<close> show ?thesis by blast
    qed
  next
    assume "\<exists>pre w suf. c # cs = pre @ w @ suf \<and> map sql_fold w = map sql_fold t"
    then obtain pre w suf where p: "c # cs = pre @ w @ suf" "map sql_fold w = map sql_fold t"
      by blast
    show "ci_substring t (c # cs)"
    proof (cases pre)
      case Nil
      with p have "ci_prefix t (c # cs)" unfolding ci_prefix_iff by auto
      then show ?thesis by simp
    next
      case (Cons a pre')
      with p have "cs = pre' @ w @ suf" by simp
      with p(2) IH have "ci_substring t cs" by blast
      then show ?thesis by simp
    qed
  qed
qed

text \<open>The pattern match on a term without wildcards.\<close>

lemma like_percent_all: "like_match [CHR ''%''] s"
  by (induction s) simp_all

lemma ci_prefix_Nil_right [simp]: "ci_prefix t [] \<longleftrightarrow> t = []"
  by (cases t) simp_all

lemma like_prefix:
  "CHR ''%'' \<notin> set t \<Longrightarrow> CHR ''_'' \<notin> set t
   \<Longrightarrow> like_match (t @ [CHR ''%'']) s = ci_prefix t s"
proof (induction t arbitrary: s)
  case Nil
  then show ?case by (simp add: like_percent_all)
next
  case (Cons q qs)
  then have w: "CHR ''%'' \<notin> set qs" "CHR ''_'' \<notin> set qs" "q \<noteq> CHR ''%''" "q \<noteq> CHR ''_''"
    by auto
  show ?case
  proof (cases s)
    case Nil
    then show ?thesis using w by simp
  next
    case (Cons c cs)
    then show ?thesis using w Cons.IH[OF w(1,2)] by simp
  qed
qed

lemma like_substring:
  assumes "CHR ''%'' \<notin> set t" and "CHR ''_'' \<notin> set t"
  shows "like_match (CHR ''%'' # t @ [CHR ''%'']) s = ci_substring t s"
proof (induction s)
  case Nil
  show ?case using like_prefix[OF assms, of "[]"] by simp
next
  case (Cons c cs)
  show ?case using like_prefix[OF assms, of "c # cs"] Cons.IH by simp
qed

lemma c_string_id: "CHR 0x00 \<notin> set s \<Longrightarrow> c_string s = s"
  by (auto simp: c_string_def)

lemma sql_like_plain:
  assumes "plain_term t"
  shows "sql_like (CHR ''%'' # t @ [CHR ''%'']) s = ci_substring t (c_string s)"
proof -
  from assms have w: "CHR ''%'' \<notin> set t" "CHR ''_'' \<notin> set t" and n: "CHR 0x00 \<notin> set t"
    by (simp_all add: plain_term_def)
  from n have "CHR 0x00 \<notin> set (CHR ''%'' # t @ [CHR ''%''])" by simp
  then have "c_string (CHR ''%'' # t @ [CHR ''%'']) = CHR ''%'' # t @ [CHR ''%'']"
    by (rule c_string_id)
  then show ?thesis
    by (simp add: sql_like_def like_substring[OF w])
qed

lemma digit_not_space: "py_digit c \<Longrightarrow> \<not> py_space c"
  by (auto simp: py_digit_def py_space_def Let_def)

lemma dropWhile_keeps:
  "xs \<noteq> [] \<Longrightarrow> \<not> P (hd xs) \<Longrightarrow> dropWhile P xs = xs"
  by (cases xs) simp_all

lemma strip_id:
  assumes "s \<noteq> []" and "\<not> py_space (hd s)" and "\<not> py_space (last s)"
  shows "strip s = s"
proof -
  have 1: "dropWhile py_space s = s"
    using assms(1,2) by (rule dropWhile_keeps)
  have "rev s \<noteq> []" and "\<not> py_space (hd (rev s))"
    using assms(1,3) by (simp_all add: hd_rev)
  then have 2: "dropWhile py_space (rev s) = rev s"
    by (rule dropWhile_keeps)
  show ?thesis by (simp add: strip_def 1 2)
qed

lemma strip_digits: "isdigit s \<Longrightarrow> strip s = s"
  by (rule strip_id) (auto simp: isdigit_def list_all_iff intro!: digit_not_space)

lemma search_isbn_set:
  "set (search_books_in_catalog d True s ''isbn'')
   = {b \<in> set (books d). strip s \<noteq> [] \<and> bk_isbn b = strip s}"
  by (auto simp: search_books_in_catalog_def Let_def)

lemma search_title_set:
  "set (search_books_in_catalog d True s ''title'')
   = {b \<in> set (books d). strip s \<noteq> []
        \<and> sql_like (CHR ''%'' # strip s @ [CHR ''%'']) (bk_title b)}"
  by (auto simp: search_books_in_catalog_def Let_def)

lemma search_author_set:
  "set (search_books_in_catalog d True s ''author'')
   = {b \<in> set (books d). strip s \<noteq> []
        \<and> sql_like (CHR ''%'' # strip s @ [CHR ''%'']) (bk_author b)}"
  by (auto simp: search_books_in_catalog_def Let_def)

text \<open>
  C9, as amended. A book added with the title \<open>Zzz\<close> and an isbn of digits is in the
  results of \<open>search("Zzz", "title")\<close> and of \<open>search(isbn, "isbn")\<close>, when the query
  does not fail. The search term is trimmed first. For a term that, once trimmed, has no
  \<open>%\<close>, no \<open>_\<close> and no NUL character in it, the book is in the title results exactly
  when the trimmed term is not empty and occurs in the title as a substring, up to the
  case of the letters a..z; and it is in the author results exactly when the trimmed term
  so occurs in the stored author, read up to its first NUL character. The book is in the
  isbn results exactly when the trimmed term is the isbn.
\<close>

theorem search_round_trip:
  assumes "add_book_to_catalog d insert_ok ''Zzz'' author isbn copies = (d', True, msg)"
    and "isdigit isbn"
  shows "let b = \<lparr>bk_id = next_book_id d, bk_title = ''Zzz'', bk_author = strip author,
                  bk_isbn = isbn, total_copies = int_value copies,
                  available_copies = int_value copies\<rparr>
         in b \<in> set (books d')
          \<and> b \<in> set (search_books_in_catalog d' True ''Zzz'' ''title'')
          \<and> b \<in> set (search_books_in_catalog d' True isbn ''isbn'')
          \<and> (\<forall>s. plain_term (strip s) \<longrightarrow>
                (b \<in> set (search_books_in_catalog d' True s ''title'')
                   \<longleftrightarrow> strip s \<noteq> [] \<and> ci_substring (strip s) ''Zzz''))
          \<and> (\<forall>s. plain_term (strip s) \<longrightarrow>
                (b \<in> set (search_books_in_catalog d' True s ''author'')
                   \<longleftrightarrow> strip s \<noteq> [] \<and> ci_substring (strip s) (c_string (strip author))))
          \<and> (\<forall>s. b \<in> set (search_books_in_catalog d' True s ''isbn'')
                   \<longleftrightarrow> strip s = isbn)"
proof -
  define b where "b = \<lparr>bk_id = next_book_id d, bk_title = ''Zzz'', bk_author = strip author,
                  bk_isbn = isbn, total_copies = int_value copies,
                  available_copies = int_value copies\<rparr>"
  have z: "strip ''Zzz'' = ''Zzz''" by (simp add: strip_def py_space_def)
  have cs: "c_string ''Zzz'' = ''Zzz''" by (simp add: c_string_def)
  have wz: "plain_term ''Zzz''" by (simp add: plain_term_def)
  have cz: "ci_substring ''Zzz'' ''Zzz''" by simp
  from add_book_success[OF assms(1)] have mem: "b \<in> set (books d')"
    by (simp add: b_def z)
  have i: "strip isbn = isbn" "isbn \<noteq> []"
    using assms(2) strip_digits by (auto simp: isdigit_def)
  have t: "b \<in> set (search_books_in_catalog d' True s ''title'')
      \<longleftrightarrow> strip s \<noteq> [] \<and> ci_substring (strip s) ''Zzz''"
    if "plain_term (strip s)" for s
    using mem sql_like_plain[OF that, of "''Zzz''"] by (simp add: search_title_set b_def cs)
  have a: "b \<in> set (search_books_in_catalog d' True s ''author'')
      \<longleftrightarrow> strip s \<noteq> [] \<and> ci_substring (strip s) (c_string (strip author))"
    if "plain_term (strip s)" for s
    using mem sql_like_plain[OF that] by (simp add: search_author_set b_def)
  have n: "b \<in> set (search_books_in_catalog d' True s ''isbn'') \<longleftrightarrow> strip s = isbn"
    for s
    using mem i by (auto simp: search_isbn_set b_def)
  have t0: "b \<in> set (search_books_in_catalog d' True ''Zzz'' ''title'')"
    using t[of "''Zzz''"] wz cz by (simp add: z)
  have n0: "b \<in> set (search_books_in_catalog d' True isbn ''isbn'')"
    using n[of isbn] i by simp
  show ?thesis
    unfolding Let_def b_def[symmetric]
    using mem t0 n0 t a n by blast
qed

lemma zzz_db_eq: "zzz_db = \<lparr>books = [zzz], borrow_records = []\<rparr>"
  by (simp add: zzz_db_def zzz_def eval_defs)

text \<open>
  The book is found by the title term \<open>zZ\<close> with blanks around it and by its isbn,
  and is found neither by \<open>Zza\<close> nor by the first twelve digits of the isbn.
\<close>

theorem search_round_trip_witness:
  "isdigit ''1234567890123''
   \<and> add_book_to_catalog empty_db True ''Zzz'' ''A'' ''1234567890123'' (PyInt 1)
       = (zzz_db, True, Book_added ''Zzz'')
   \<and> plain_term (strip '' zZ '') \<and> plain_term (strip ''Zza'')
   \<and> zzz \<in> set (search_books_in_catalog zzz_db True '' zZ '' ''title'')
   \<and> zzz \<in> set (search_books_in_catalog zzz_db True ''1234567890123'' ''isbn'')
   \<and> zzz \<notin> set (search_books_in_catalog zzz_db True ''Zza'' ''title'')
   \<and> zzz \<notin> set (search_books_in_catalog zzz_db True ''123456789012'' ''isbn'')"
proof -
  have g: "isdigit ''1234567890123''" by (simp add: isdigit_def py_digit_def)
  have a: "add_book_to_catalog empty_db True ''Zzz'' ''A'' ''1234567890123'' (PyInt 1)
           = (zzz_db, True, Book_added ''Zzz'')"
    unfolding zzz_db_eq by (simp add: zzz_def eval_defs)
  have n: "next_book_id empty_db = 1" by (simp add: next_book_id_def empty_db_def)
  have s: "strip '' zZ '' = ''zZ''" "strip ''Zza'' = ''Zza''" "strip ''A'' = ''A''"
      "strip ''123456789012'' = ''123456789012''"
    by (simp_all add: strip_def py_space_def)
  have w: "plain_term ''zZ''" "plain_term ''Zza''" by (simp_all add: plain_term_def)
  have c: "ci_substring ''zZ'' ''Zzz''" "\<not> ci_substring ''Zza'' ''Zzz''"
    by (simp_all add: sql_fold_def)
  note r = search_round_trip[OF a g, unfolded Let_def n s(3) int_value.simps zzz_def[symmetric]]
  from r have t: "plain_term (strip q) \<Longrightarrow>
      zzz \<in> set (search_books_in_catalog zzz_db True q ''title'')
        \<longleftrightarrow> strip q \<noteq> [] \<and> ci_substring (strip q) ''Zzz''" for q
    by blast
  from r have i: "zzz \<in> set (search_books_in_catalog zzz_db True q ''isbn'')
        \<longleftrightarrow> strip q = ''1234567890123''" for q
    by blast
  have 1: "zzz \<in> set (search_books_in_catalog zzz_db True '' zZ '' ''title'')"
    using t[of "'' zZ ''"] w c by (simp add: s)
  have 2: "zzz \<in> set (search_books_in_catalog zzz_db True ''1234567890123'' ''isbn'')"
    using r by blast
  have 3: "zzz \<notin> set (search_books_in_catalog zzz_db True ''Zza'' ''title'')"
    using t[of "''Zza''"] w c by (simp add: s)
  have 4: "zzz \<notin> set (search_books_in_catalog zzz_db True ''123456789012'' ''isbn'')"
    using i[of "''123456789012''"] by (simp add: s)
  show ?thesis
    using g a w 1 2 3 4 by (simp add: s)
qed

text \<open>
  C9 as the specification states it fails, in four ways. The term is trimmed, so the
  term \<open>Zzz\<close> between blanks finds the book, though with its blanks it is no substring
  of the title. \<open>_\<close> in a term is a wildcard of \<open>LIKE\<close>, so \<open>Z_z\<close> finds the book.
  The pattern ends at a NUL character, so the term \<open>z\<close>, NUL, \<open>q\<close> finds the book as
  the term \<open>z\<close> does. And the case of letters other than a..z counts: a book whose
  author is the one letter U+00C9 (capital E with acute) is not found by the author term
  U+00E9 (small e with acute), which is that letter in lower case.
\<close>

theorem search_wildcard_matches:
  "search_books_in_catalog zzz_db True '' Zzz '' ''title'' = [zzz]
   \<and> \<not> ci_substring '' Zzz '' ''Zzz''
   \<and> search_books_in_catalog zzz_db True ''Z_z'' ''title'' = [zzz]
   \<and> \<not> ci_substring ''Z_z'' ''Zzz''
   \<and> search_books_in_catalog zzz_db True [CHR ''z'', CHR 0x00, CHR ''q''] ''title'' = [zzz]
   \<and> \<not> ci_substring [CHR ''z'', CHR 0x00, CHR ''q''] ''Zzz''
   \<and> fst (snd (add_book_to_catalog empty_db True ''Zzz'' [CHR 0xC9] ''1234567890123'' (PyInt 1)))
   \<and> search_books_in_catalog
         (fst (add_book_to_catalog empty_db True ''Zzz'' [CHR 0xC9] ''1234567890123'' (PyInt 1)))
         True [CHR 0xE9] ''author'' = []
   \<and> py_lower_code (CHR 0xC9) = py_lower_code (CHR 0xE9)"
  by (simp add: zzz_db_eq zzz_def eval_defs search_books_in_catalog_def sql_like_def
      c_string_def sql_fold_def py_lower_code_def)

end
